theory Spec2Isabelle
  imports Main "HOL-Library.Char_ord" "HOL-Library.Log_Nat"
begin

section \<open>Plan selection outcome (web/packages/new/photos/components/PlanSelector.tsx)\<close>

text \<open>
  The fields of \<open>Subscription\<close> that \<open>planSelectionOutcome\<close> reads. The type itself is
  declared in \<open>services/user-details\<close>; here it is the record of the three fields used:
  \<open>productID\<close> and \<open>paymentProvider\<close> are strings, \<open>expiryTime\<close> is an epoch time in
  microseconds.
\<close>

record Subscription =
  productID :: string
  expiryTime :: int
  paymentProvider :: string

text \<open>
  The four string literals the function returns: \<open>"buyPlan"\<close>,
  \<open>"updateSubscriptionToPlan"\<close>, \<open>"cancelOnMobile"\<close> and \<open>"contactSupport"\<close>.
\<close>

datatype Outcome = BuyPlan | UpdateSubscriptionToPlan | CancelOnMobile | ContactSupport

text \<open>
  A JavaScript \<open>number\<close> is an IEEE 754 double. The numbers of this function hold integers
  (an epoch time in microseconds, \<open>Date.now()\<close> in milliseconds, their product with 1000),
  and an integer is a double exactly when its magnitude is \<open>m * 2^k\<close> with \<open>m < 2^53\<close>. An
  arithmetic result that is not a double is rounded to the nearest one, a tie going to the
  even significand.

  \<open>roundAt k n\<close> rounds \<open>n \<ge> 0\<close> to the nearest multiple of \<open>2^k\<close>, a tie to the even multiple.
  \<open>roundToDouble n\<close> is the double nearest to the integer \<open>n\<close>: the magnitude is rounded at
  \<open>k = bitlen - 53\<close>, which leaves 53 significant bits; a magnitude below \<open>2^53\<close> has \<open>k = 0\<close>
  and is kept. (No integer in reach of the function overflows a double.)
\<close>

definition roundAt :: "nat \<Rightarrow> int \<Rightarrow> int" where
  "roundAt k n =
     (let q = 2 ^ k; m = n div q; r = n mod q
      in if 2 * r > q \<or> (2 * r = q \<and> odd m) then (m + 1) * q else m * q)"

definition roundToDouble :: "int \<Rightarrow> int" where
  "roundToDouble n =
     (if n < 0 then - roundAt (nat (bitlen (- n) - 53)) (- n)
      else roundAt (nat (bitlen n - 53)) n)"

text \<open>
  \<open>planSelectionOutcome\<close>, with the one reading of the clock made a parameter:
  \<open>dateNow\<close> is the value of \<open>Date.now()\<close>, an integer number of milliseconds (a time
  value, at most \<open>8.64 * 10^15\<close> in magnitude, hence a double). The source compares
  \<open>subscription.expiryTime < Date.now() * 1000\<close> on doubles: the product is the double
  nearest to the exact product, and \<open>expiryTime\<close>, a \<open>number\<close>, is a double already, so an
  integer of the record stands for the double nearest to it (itself, when it is one).
  \<open>Subscription | undefined\<close> is an option.
\<close>

definition planSelectionOutcome :: "int \<Rightarrow> Subscription option \<Rightarrow> Outcome" where
  "planSelectionOutcome dateNow subscription =
     (case subscription of
        None \<Rightarrow> BuyPlan
      | Some s \<Rightarrow>
          if productID s = ''free'' then BuyPlan
          else if roundToDouble (expiryTime s) < roundToDouble (dateNow * 1000) then BuyPlan
          else if paymentProvider s = ''stripe'' then UpdateSubscriptionToPlan
          else if paymentProvider s = ''appstore'' \<or> paymentProvider s = ''playstore''
            then CancelOnMobile
          else ContactSupport)"

section \<open>URL escaping (Go's \<open>net/url\<close>, as called by the mailing list controller)\<close>

text \<open>
  \<open>doListAction\<close> calls \<open>url.QueryEscape\<close> and \<open>url.PathEscape\<close> of Go's standard library.
  Both are \<open>escape(s, mode)\<close>, with mode \<open>encodeQueryComponent\<close> and \<open>encodePathSegment\<close>;
  these are the two modes modelled. A Go string is a sequence of bytes, as \<open>string\<close> is here.
\<close>

datatype encoding = encodePathSegment | encodeQueryComponent

text \<open>
  \<open>shouldEscape\<close>: letters and digits are never escaped, nor are \<open>- _ . ~\<close>; the reserved
  characters \<open>$ & + , / : ; = ? @\<close> are all escaped in a query component, and only
  \<open>/ ; , ?\<close> of them in a path segment; every other byte is escaped.
\<close>

definition shouldEscape :: "char \<Rightarrow> encoding \<Rightarrow> bool" where
  "shouldEscape c mode =
     (if (CHR ''a'' \<le> c \<and> c \<le> CHR ''z'') \<or> (CHR ''A'' \<le> c \<and> c \<le> CHR ''Z'')
          \<or> (CHR ''0'' \<le> c \<and> c \<le> CHR ''9'') then False
      else if c \<in> {CHR ''-'', CHR ''_'', CHR ''.'', CHR ''~''} then False
      else if c \<in> {CHR ''$'', CHR ''&'', CHR ''+'', CHR '','', CHR ''/'', CHR '':'', CHR '';'',
                    CHR ''='', CHR ''?'', CHR ''@''} then
        (case mode of
           encodePathSegment \<Rightarrow> c = CHR ''/'' \<or> c = CHR '';'' \<or> c = CHR '','' \<or> c = CHR ''?''
         | encodeQueryComponent \<Rightarrow> True)
      else True)"

definition upperhex :: string where
  "upperhex = ''0123456789ABCDEF''"

text \<open>
  \<open>escape\<close>: a space becomes \<open>+\<close> in a query component; a byte that \<open>shouldEscape\<close>
  becomes \<open>%\<close> and the two hexadecimal digits \<open>upperhex[c>>4]\<close>, \<open>upperhex[c&15]\<close>; any
  other byte is copied.
\<close>

fun escape :: "string \<Rightarrow> encoding \<Rightarrow> string" where
  "escape [] mode = []"
| "escape (c # s) mode =
     (if c = CHR '' '' \<and> mode = encodeQueryComponent then CHR ''+'' # escape s mode
      else if shouldEscape c mode then
        CHR ''%'' # upperhex ! (of_char c div 16) # upperhex ! (of_char c mod 16) # escape s mode
      else c # escape s mode)"

definition QueryEscape :: "string \<Rightarrow> string" where
  "QueryEscape s = escape s encodeQueryComponent"

definition PathEscape :: "string \<Rightarrow> string" where
  "PathEscape s = escape s encodePathSegment"

text \<open>
  The inverse direction, \<open>url.QueryUnescape\<close>, is what a receiver of the URL applies to a
  query parameter. The controller does not call it; it is the reference decoder against
  which the escaping is read below. \<open>unescape\<close> fails (\<open>None\<close>, Go's \<open>EscapeError\<close>) when a
  \<open>%\<close> is not followed by two hexadecimal digits; otherwise \<open>%XX\<close> is the byte
  \<open>unhex(X)<<4 | unhex(X)\<close>, and \<open>+\<close> is a space in a query component.
\<close>

definition ishex :: "char \<Rightarrow> bool" where
  "ishex c = ((CHR ''0'' \<le> c \<and> c \<le> CHR ''9'') \<or> (CHR ''a'' \<le> c \<and> c \<le> CHR ''f'')
              \<or> (CHR ''A'' \<le> c \<and> c \<le> CHR ''F''))"

definition unhex :: "char \<Rightarrow> nat" where
  "unhex c =
     (if CHR ''0'' \<le> c \<and> c \<le> CHR ''9'' then of_char c - of_char (CHR ''0'')
      else if CHR ''a'' \<le> c \<and> c \<le> CHR ''f'' then of_char c - of_char (CHR ''a'') + 10
      else if CHR ''A'' \<le> c \<and> c \<le> CHR ''F'' then of_char c - of_char (CHR ''A'') + 10
      else 0)"

fun unescape :: "string \<Rightarrow> encoding \<Rightarrow> string option" where
  "unescape [] mode = Some []"
| "unescape (c # s) mode =
     (if c = CHR ''%'' then
        (case s of
           h1 # h2 # r \<Rightarrow>
             if ishex h1 \<and> ishex h2
             then map_option ((#) (char_of (unhex h1 * 16 + unhex h2))) (unescape r mode)
             else None
         | _ \<Rightarrow> None)
      else if c = CHR ''+'' then
        map_option ((#) (if mode = encodeQueryComponent then CHR '' '' else CHR ''+''))
          (unescape s mode)
      else map_option ((#) c) (unescape s mode))"

definition QueryUnescape :: "string \<Rightarrow> string option" where
  "QueryUnescape s = unescape s encodeQueryComponent"

text \<open>\<open>strings.Contains(s, substr)\<close>: \<open>substr\<close> occurs in \<open>s\<close> as a contiguous run of bytes.\<close>

fun HasPrefix :: "string \<Rightarrow> string \<Rightarrow> bool" where
  "HasPrefix s [] = True"
| "HasPrefix [] (p # ps) = False"
| "HasPrefix (c # s) (p # ps) = (c = p \<and> HasPrefix s ps)"

fun Contains :: "string \<Rightarrow> string \<Rightarrow> bool" where
  "Contains [] substr = (substr = [])"
| "Contains (c # s) substr = (HasPrefix (c # s) substr \<or> Contains s substr)"

section \<open>The mailing list controller (museum, \<open>package controller\<close>)\<close>

record Credentials =
  ClientID :: string
  ClientSecret :: string
  RefreshToken :: string

record MailingListsController =
  zohoAccessToken :: string
  zohoListKey :: string
  zohoTopicIds :: string
  zohoCredentials :: Credentials

text \<open>
  Go \<open>error\<close> values. \<open>ErrNotImplemented\<close> is the sentinel of package \<open>ente\<close>. An error
  returned by \<open>zoho.DoRequest\<close> is an opaque value of which the controller reads only the
  text of \<open>Error()\<close>: \<open>RequestError\<close> carries that text. \<open>Stacktrace cause msg\<close> is the value
  \<open>stacktrace.Propagate(cause, msg)\<close> builds around a cause that is not \<open>nil\<close>; for a
  \<open>nil\<close> cause \<open>Propagate\<close> returns \<open>nil\<close>. A possibly-\<open>nil\<close> error is an option.
\<close>

datatype error = ErrNotImplemented | RequestError string | Stacktrace error string

definition Propagate :: "error option \<Rightarrow> string \<Rightarrow> error option" where
  "Propagate cause msg = (case cause of None \<Rightarrow> None | Some e \<Rightarrow> Some (Stacktrace e msg))"

text \<open>
  What a call does besides returning: the lines it logs (with their logrus level) and the
  requests it hands to \<open>zoho.DoRequest\<close> (method, URL, access token, credentials), in order.
\<close>

datatype level = InfoLevel | WarnLevel | ErrorLevel

datatype effect = Log level string | Request string string string Credentials

fun isRequest :: "effect \<Rightarrow> bool" where
  "isRequest (Request method url token creds) = True"
| "isRequest (Log lvl line) = False"

text \<open>
  The result of calling a method of the controller: the error it returns, the controller
  as the call leaves it, and the effects of the call.
\<close>

record Call =
  returned :: "error option"
  receiver :: MailingListsController
  effects :: "effect list"

text \<open>
  \<open>zoho.DoRequest\<close> is outside the controller: it is a parameter here, a function from the
  four arguments to the access token it returns and the \<open>Error()\<close> text of its error, if any.
\<close>

type_synonym DoRequest = "string \<Rightarrow> string \<Rightarrow> string \<Rightarrow> Credentials \<Rightarrow> string \<times> string option"

definition shouldSkip :: "MailingListsController \<Rightarrow> bool \<times> effect list" where
  "shouldSkip c =
     (if RefreshToken (zohoCredentials c) = ''''
      then (True, [Log InfoLevel
                     ''Skipping mailing list update because credentials are not configured''])
      else (False, []))"

text \<open>The locals \<open>contactInfo\<close>, \<open>escapedContactInfo\<close> and \<open>url\<close> of \<open>doListAction\<close>.\<close>

definition contactInfo :: "string \<Rightarrow> string" where
  \<open>contactInfo email = ''{Contact+Email: "'' @ QueryEscape email @ ''"}''\<close>

definition escapedContactInfo :: "string \<Rightarrow> string" where
  "escapedContactInfo email = PathEscape (contactInfo email)"

definition actionURL :: "MailingListsController \<Rightarrow> string \<Rightarrow> string \<Rightarrow> string" where
  "actionURL c action email =
     ''https://campaigns.zoho.com/api/v1.1/json/'' @ action @ ''?resfmt=JSON&listkey=''
       @ zohoListKey c @ ''&contactinfo='' @ escapedContactInfo email
       @ ''&topic_id='' @ zohoTopicIds c"

text \<open>The line both \<open>log.Warnf\<close> and \<open>log.Errorf\<close> print: \<open>Zoho - Could not %s '%s': %s\<close>.\<close>

definition couldNot :: "string \<Rightarrow> string \<Rightarrow> string \<Rightarrow> string" where
  "couldNot action email errText =
     ''Zoho - Could not '' @ action @ '' '' @ [CHR 0x27] @ email @ [CHR 0x27] @ '': '' @ errText"

definition doListAction :: "DoRequest \<Rightarrow> string \<Rightarrow> string \<Rightarrow> MailingListsController \<Rightarrow> Call" where
  "doListAction DoRequest action email c =
     (let url = actionURL c action email;
          (token, err) = DoRequest ''POST'' url (zohoAccessToken c) (zohoCredentials c);
          c' = c\<lparr>zohoAccessToken := token\<rparr>;
          logged =
            (case err of
               None \<Rightarrow> []
             | Some errText \<Rightarrow>
                 if Contains errText ''Contact does not exist''
                 then [Log WarnLevel (couldNot action email errText)]
                 else [Log ErrorLevel (couldNot action email errText)])
      in \<lparr>returned = Propagate (map_option RequestError err) '''',
          receiver = c',
          effects = Request ''POST'' url (zohoAccessToken c) (zohoCredentials c) # logged\<rparr>)"

definition Subscribe :: "DoRequest \<Rightarrow> string \<Rightarrow> MailingListsController \<Rightarrow> Call" where
  "Subscribe DoRequest email c =
     (let (skip, logged) = shouldSkip c
      in if skip
         then \<lparr>returned = Propagate (Some ErrNotImplemented) '''', receiver = c, effects = logged\<rparr>
         else (let r = doListAction DoRequest ''listsubscribe'' email c
               in r\<lparr>effects := logged @ effects r\<rparr>))"

definition Unsubscribe :: "DoRequest \<Rightarrow> string \<Rightarrow> MailingListsController \<Rightarrow> Call" where
  "Unsubscribe DoRequest email c =
     (let (skip, logged) = shouldSkip c
      in if skip
         then \<lparr>returned = Propagate (Some ErrNotImplemented) '''', receiver = c, effects = logged\<rparr>
         else (let r = doListAction DoRequest ''listunsubscribe'' email c
               in r\<lparr>effects := logged @ effects r\<rparr>))"

text \<open>
  Reading \<open>+\<close> as a space, byte by byte: what \<open>url.QueryUnescape\<close> does to the bytes that
  are not part of a \<open>%XX\<close> triple. It serves to state what one decoding pass leaves.
\<close>

definition plusToSpace :: "char \<Rightarrow> char" where
  "plusToSpace c = (if c = CHR ''+'' then CHR '' '' else c)"

text \<open>Two controllers to evaluate the operations on: one without a refresh token, one with.\<close>

abbreviation disabledController :: MailingListsController where
  "disabledController \<equiv>
     \<lparr>zohoAccessToken = ''cached'', zohoListKey = ''key1'', zohoTopicIds = ''t1,t2'',
      zohoCredentials = \<lparr>ClientID = ''id'', ClientSecret = ''secret'', RefreshToken = ''''\<rparr>\<rparr>"

abbreviation enabledController :: MailingListsController where
  "enabledController \<equiv>
     \<lparr>zohoAccessToken = ''cached'', zohoListKey = ''key1'', zohoTopicIds = ''t1,t2'',
      zohoCredentials = \<lparr>ClientID = ''id'', ClientSecret = ''secret'', RefreshToken = ''refresh''\<rparr>\<rparr>"

text \<open>
  A \<open>zoho.DoRequest\<close> that fails with the vendor's message "Contact does not exist." after
  having minted the access token \<open>fresh\<close>.
\<close>

abbreviation contactMissing :: DoRequest where
  "contactMissing \<equiv> (\<lambda>method url token creds. (''fresh'', Some ''Contact does not exist.''))"

section \<open>Auxiliary facts\<close>

subsection \<open>Rounding to a double\<close>


lemma roundAt_multiple: "roundAt k (c * 2 ^ k) = c * 2 ^ k"
  by (simp add: roundAt_def)

lemma roundAt_between:
  "(n div 2 ^ k) * 2 ^ k \<le> roundAt k n \<and> roundAt k n \<le> (n div 2 ^ k + 1) * 2 ^ k"
  by (simp add: roundAt_def Let_def distrib_right)

lemma roundAt_mono:
  assumes "a \<le> b"
  shows "roundAt k a \<le> roundAt k b"
proof -
  let ?q = "(2::int) ^ k"
  have q: "0 < ?q" by simp
  have le: "a div ?q \<le> b div ?q" using assms q by (simp add: zdiv_mono1)
  show ?thesis
  proof (cases "a div ?q = b div ?q")
    case True
    have "a mod ?q \<le> b mod ?q"
    proof -
      have "a div ?q * ?q + a mod ?q \<le> b div ?q * ?q + b mod ?q"
        using assms by (simp only: div_mult_mod_eq)
      with True show ?thesis by simp
    qed
    with True show ?thesis
      by (auto simp: roundAt_def Let_def)
  next
    case False
    with le have "a div ?q + 1 \<le> b div ?q" by simp
    then have "(a div ?q + 1) * ?q \<le> b div ?q * ?q"
      using q by (simp add: mult_right_mono)
    with roundAt_between [of a k] roundAt_between [of b k] show ?thesis by linarith
  qed
qed

lemma bitlen_mono: "a \<le> b \<Longrightarrow> bitlen a \<le> bitlen b"
  by (simp add: bitlen_def floorlog_mono)

text \<open>Rounding stays within the binade: between the powers of two around the number.\<close>

lemma roundToDouble_within:
  assumes "0 < n"
  shows "2 ^ nat (bitlen n - 1) \<le> roundToDouble n \<and> roundToDouble n \<le> 2 ^ nat (bitlen n)"
proof -
  let ?k = "nat (bitlen n - 53)"
  have b: "2 ^ nat (bitlen n - 1) \<le> n" "n < 2 ^ nat (bitlen n)"
    using bitlen_bounds [OF assms] by simp_all
  have pos: "1 \<le> bitlen n"
    using assms bitlen_eq_zero_iff [of n] bitlen_nonneg [of n] by linarith
  have lo: "(2::int) ^ nat (bitlen n - 1) = 2 ^ (nat (bitlen n - 1) - ?k) * 2 ^ ?k"
    using pos by (simp flip: power_add)
  have hi: "(2::int) ^ nat (bitlen n) = 2 ^ (nat (bitlen n) - ?k) * 2 ^ ?k"
    using pos by (simp flip: power_add)
  have "roundAt ?k (2 ^ nat (bitlen n - 1)) \<le> roundAt ?k n"
    using b by (intro roundAt_mono) simp
  moreover have "roundAt ?k n \<le> roundAt ?k (2 ^ nat (bitlen n))"
    using b by (intro roundAt_mono) simp
  moreover have "roundAt ?k (2 ^ nat (bitlen n - 1)) = 2 ^ nat (bitlen n - 1)"
    by (subst lo, subst roundAt_multiple) (simp flip: lo)
  moreover have "roundAt ?k (2 ^ nat (bitlen n)) = 2 ^ nat (bitlen n)"
    by (subst hi, subst roundAt_multiple) (simp flip: hi)
  ultimately show ?thesis using assms by (simp add: roundToDouble_def)
qed

lemma roundToDouble_mono_pos:
  assumes "0 < a" "a \<le> b"
  shows "roundToDouble a \<le> roundToDouble b"
proof (cases "bitlen a = bitlen b")
  case True
  then show ?thesis using assms by (simp add: roundToDouble_def roundAt_mono)
next
  case False
  with bitlen_mono [OF assms(2)] have "bitlen a \<le> bitlen b - 1" by simp
  then have "(2::int) ^ nat (bitlen a) \<le> 2 ^ nat (bitlen b - 1)"
    by (intro power_increasing) simp_all
  with roundToDouble_within [of a] roundToDouble_within [of b] assms show ?thesis by linarith
qed

lemma roundToDouble_0: "roundToDouble 0 = 0"
  by (simp add: roundToDouble_def roundAt_def)

lemma roundToDouble_neg: "roundToDouble (- n) = - roundToDouble n"
  by (cases "n = 0") (auto simp: roundToDouble_def roundAt_def)

lemma roundToDouble_nonneg:
  assumes "0 \<le> n"
  shows "0 \<le> roundToDouble n"
proof (cases "n = 0")
  case True
  then show ?thesis by (simp add: roundToDouble_0)
next
  case False
  with assms have "0 < n" by simp
  from roundToDouble_within [OF this] have "2 ^ nat (bitlen n - 1) \<le> roundToDouble n" ..
  moreover have "(0::int) \<le> 2 ^ nat (bitlen n - 1)" by simp
  ultimately show ?thesis by linarith
qed

text \<open>Rounding preserves the order of the integers (not the strict one).\<close>

lemma roundToDouble_mono:
  assumes "a \<le> b"
  shows "roundToDouble a \<le> roundToDouble b"
proof -
  consider "0 < a" | "a \<le> 0" "0 \<le> b" | "b < 0" by linarith
  then show ?thesis
  proof cases
    case 1
    then show ?thesis using assms by (rule roundToDouble_mono_pos)
  next
    case 2
    have "0 \<le> roundToDouble b" using 2 by (simp add: roundToDouble_nonneg)
    moreover have "0 \<le> roundToDouble (- a)" using 2 by (simp add: roundToDouble_nonneg)
    ultimately show ?thesis by (simp add: roundToDouble_neg)
  next
    case 3
    then have "roundToDouble (- b) \<le> roundToDouble (- a)"
      using assms by (intro roundToDouble_mono_pos) simp_all
    then show ?thesis by (simp add: roundToDouble_neg)
  qed
qed



subsection \<open>\<open>strings.Contains\<close> is the substring test\<close>

lemma HasPrefix_iff: "HasPrefix s p \<longleftrightarrow> (\<exists>q. s = p @ q)"
  by (induction s p rule: HasPrefix.induct) auto

lemma Contains_iff: "Contains s substr \<longleftrightarrow> (\<exists>p q. s = p @ substr @ q)"
proof (induction s)
  case Nil
  then show ?case by simp
next
  case (Cons c s)
  show ?case
  proof
    assume "Contains (c # s) substr"
    then consider "HasPrefix (c # s) substr" | "Contains s substr" by auto
    then show "\<exists>p q. c # s = p @ substr @ q"
    proof cases
      case 1
      then obtain q where "c # s = substr @ q" by (auto simp: HasPrefix_iff)
      then have "c # s = [] @ substr @ q" by simp
      then show ?thesis by blast
    next
      case 2
      then obtain p q where "s = p @ substr @ q" using Cons.IH by blast
      then have "c # s = (c # p) @ substr @ q" by simp
      then show ?thesis by blast
    qed
  next
    assume "\<exists>p q. c # s = p @ substr @ q"
    then obtain p q where pq: "c # s = p @ substr @ q" by blast
    show "Contains (c # s) substr"
    proof (cases p)
      case Nil
      with pq have "HasPrefix (c # s) substr" by (auto simp: HasPrefix_iff)
      then show ?thesis by simp
    next
      case (Cons a p')
      with pq have "s = p' @ substr @ q" by simp
      then have "Contains s substr" using Cons.IH by blast
      then show ?thesis by simp
    qed
  qed
qed

subsection \<open>Hexadecimal digits\<close>

lemma of_char_div_16: "(of_char c :: nat) div 16 < 16"
  using nat_of_char_less_256 [of c] by arith

lemma upperhex_digit:
  assumes "k < 16"
  shows "ishex (upperhex ! k) \<and> unhex (upperhex ! k) = k
         \<and> upperhex ! k \<noteq> CHR ''+'' \<and> upperhex ! k \<noteq> CHR ''%''"
proof -
  from assms consider "k = 0" | "k = 1" | "k = 2" | "k = 3" | "k = 4" | "k = 5" | "k = 6"
    | "k = 7" | "k = 8" | "k = 9" | "k = 10" | "k = 11" | "k = 12" | "k = 13" | "k = 14"
    | "k = 15"
    by (auto simp: eval_nat_numeral less_Suc_eq)
  then show ?thesis
    by cases (simp_all add: upperhex_def ishex_def unhex_def less_eq_char_def)
qed

lemma unhex_pair: "char_of (unhex (upperhex ! (of_char c div 16)) * 16
                            + unhex (upperhex ! (of_char c mod 16))) = c"
proof -
  have "unhex (upperhex ! (of_char c div 16)) = of_char c div 16"
    using upperhex_digit [OF of_char_div_16] by simp
  moreover have "unhex (upperhex ! (of_char c mod 16)) = of_char c mod 16"
    using upperhex_digit [of "of_char c mod 16"] by simp
  ultimately show ?thesis by simp
qed

lemma unescape_percent:
  "unescape (CHR ''%'' # upperhex ! (of_char c div 16) # upperhex ! (of_char c mod 16) # r) mode
     = map_option ((#) c) (unescape r mode)"
proof -
  have "ishex (upperhex ! (of_char c div 16))"
    using upperhex_digit [OF of_char_div_16] by simp
  moreover have "ishex (upperhex ! (of_char c mod 16))"
    using upperhex_digit [of "of_char c mod 16"] by simp
  ultimately show ?thesis by (simp add: unhex_pair)
qed

subsection \<open>Bytes that pass unescaped\<close>

lemma unreserved_query:
  "\<not> shouldEscape c encodeQueryComponent \<Longrightarrow> c \<noteq> CHR ''%'' \<and> c \<noteq> CHR ''+'' \<and> c \<noteq> CHR '' ''"
  by (auto simp: shouldEscape_def split: if_splits)

lemma unreserved_path:
  "\<not> shouldEscape c encodePathSegment \<Longrightarrow> c \<noteq> CHR ''%'' \<and> c \<noteq> CHR '' ''"
  by (auto simp: shouldEscape_def split: if_splits)

lemma plus_path: "\<not> shouldEscape (CHR ''+'') encodePathSegment"
  by (simp add: shouldEscape_def less_eq_char_def)

lemma plusToSpace_plus: "plusToSpace (CHR ''+'') = CHR '' ''"
  by (simp add: plusToSpace_def)

lemma plusToSpace_other: "c \<noteq> CHR ''+'' \<Longrightarrow> plusToSpace c = c"
  by (simp add: plusToSpace_def)

lemma escape_append: "escape (s @ t) mode = escape s mode @ escape t mode"
  by (induction s) auto

subsection \<open>Decoding what was escaped\<close>

lemma unescape_query_escape:
  "unescape (escape s encodeQueryComponent @ r) encodeQueryComponent
     = map_option ((@) s) (unescape r encodeQueryComponent)"
proof (induction s)
  case Nil
  show ?case by (simp add: option.map_ident)
next
  case (Cons c s)
  show ?case
  proof (cases "c = CHR '' ''")
    case True
    then show ?thesis by (simp add: Cons.IH option.map_comp comp_def)
  next
    case space: False
    show ?thesis
    proof (cases "shouldEscape c encodeQueryComponent")
      case True
      then show ?thesis
        using space by (simp add: unescape_percent Cons.IH option.map_comp comp_def del: unescape.simps)
    next
      case False
      then show ?thesis
        using space unreserved_query [OF False]
        by (simp add: Cons.IH option.map_comp comp_def)
    qed
  qed
qed

lemma unescape_path_escape:
  "unescape (escape s encodePathSegment @ r) encodeQueryComponent
     = map_option ((@) (map plusToSpace s)) (unescape r encodeQueryComponent)"
proof (induction s)
  case Nil
  show ?case by (simp add: option.map_ident)
next
  case (Cons c s)
  show ?case
  proof (cases "shouldEscape c encodePathSegment")
    case True
    then have "c \<noteq> CHR ''+''" using plus_path by auto
    then show ?thesis
      using True
      by (simp add: unescape_percent Cons.IH option.map_comp comp_def plusToSpace_other
               del: unescape.simps)
  next
    case False
    then show ?thesis
      using unreserved_path [OF False]
      by (cases "c = CHR ''+''")
         (simp_all add: Cons.IH option.map_comp comp_def plusToSpace_plus plusToSpace_other)
  qed
qed

lemma unescape_spaced_query_escape:
  "unescape (map plusToSpace (escape s encodeQueryComponent) @ r) encodeQueryComponent
     = map_option ((@) s) (unescape r encodeQueryComponent)"
proof (induction s)
  case Nil
  show ?case by (simp add: option.map_ident)
next
  case (Cons c s)
  show ?case
  proof (cases "c = CHR '' ''")
    case True
    then show ?thesis
      by (simp add: Cons.IH option.map_comp comp_def plusToSpace_plus)
  next
    case space: False
    show ?thesis
    proof (cases "shouldEscape c encodeQueryComponent")
      case True
      have "plusToSpace (upperhex ! (of_char c div 16)) = upperhex ! (of_char c div 16)"
        using upperhex_digit [OF of_char_div_16, of c] by (simp add: plusToSpace_other)
      moreover have "plusToSpace (upperhex ! (of_char c mod 16)) = upperhex ! (of_char c mod 16)"
        using upperhex_digit [of "of_char c mod 16"] by (simp add: plusToSpace_other)
      moreover have "plusToSpace (CHR ''%'') = CHR ''%''" by (simp add: plusToSpace_other)
      ultimately show ?thesis
        using space True
        by (simp add: unescape_percent Cons.IH option.map_comp comp_def del: unescape.simps)
    next
      case False
      then show ?thesis
        using space unreserved_query [OF False]
        by (simp add: Cons.IH option.map_comp comp_def plusToSpace_other)
    qed
  qed
qed

lemma QueryUnescape_escapedContactInfo:
  \<open>QueryUnescape (escapedContactInfo email)
     = Some (''{Contact Email: "'' @ map plusToSpace (QueryEscape email) @ ''"}'')\<close>
proof -
  have "QueryUnescape (escapedContactInfo email) = Some (map plusToSpace (contactInfo email))"
    using unescape_path_escape [of "contactInfo email" "[]"]
    by (simp add: QueryUnescape_def escapedContactInfo_def PathEscape_def)
  then show ?thesis
    by (simp add: contactInfo_def plusToSpace_def)
qed

lemma QueryUnescape_twice_escapedContactInfo:
  \<open>Option.bind (QueryUnescape (escapedContactInfo email)) QueryUnescape
     = Some (''{Contact Email: "'' @ email @ ''"}'')\<close>
proof -
  have \<open>unescape (map plusToSpace (escape email encodeQueryComponent) @ ''"}'')
           encodeQueryComponent = Some (email @ ''"}'')\<close>
    by (simp add: unescape_spaced_query_escape)
  then show ?thesis
    by (simp add: QueryUnescape_escapedContactInfo)
       (simp add: QueryUnescape_def QueryEscape_def)
qed

section \<open>Properties of the plan selection outcome\<close>

text \<open>
  C7: with no subscription (\<open>undefined\<close>), \<open>planSelectionOutcome\<close> returns \<open>buyPlan\<close>,
  whatever the clock reads.
\<close>

theorem planSelectionOutcome_absent:
  "planSelectionOutcome dateNow None = BuyPlan"
  by (simp add: planSelectionOutcome_def)

text \<open>
  C8: a subscription whose \<open>productID\<close> is the sentinel \<open>"free"\<close> gives \<open>buyPlan\<close>,
  whatever its expiry time and payment provider are and whatever the clock reads.
\<close>

theorem planSelectionOutcome_free:
  assumes "productID s = ''free''"
  shows "planSelectionOutcome dateNow (Some s) = BuyPlan"
  using assms by (simp add: planSelectionOutcome_def)

theorem planSelectionOutcome_free_witness:
  "productID \<lparr>productID = ''free'', expiryTime = 1900000000000000, paymentProvider = ''stripe''\<rparr>
     = ''free''
   \<and> planSelectionOutcome 1700000000000
       (Some \<lparr>productID = ''free'', expiryTime = 1900000000000000, paymentProvider = ''stripe''\<rparr>)
     = BuyPlan"
  using planSelectionOutcome_free
    [of "\<lparr>productID = ''free'', expiryTime = 1900000000000000, paymentProvider = ''stripe''\<rparr>"
        1700000000000]
  by simp




text \<open>
  C6: for a subscription that is not on the free plan and has not expired, the outcome is
  decided by the payment provider alone: \<open>"stripe"\<close> gives \<open>updateSubscriptionToPlan\<close>, the
  two mobile stores \<open>"appstore"\<close> (iOS) and \<open>"playstore"\<close> (Android) give
  \<open>cancelOnMobile\<close>, and every other provider gives \<open>contactSupport\<close>.
\<close>

theorem planSelectionOutcome_dispatch:
  assumes "productID s \<noteq> ''free''" and "\<not> expiryTime s < dateNow * 1000"
  shows "planSelectionOutcome dateNow (Some s) =
           (if paymentProvider s = ''stripe'' then UpdateSubscriptionToPlan
            else if paymentProvider s \<in> {''appstore'', ''playstore''} then CancelOnMobile
            else ContactSupport)"
proof -
  from assms(2) have "dateNow * 1000 \<le> expiryTime s" by simp
  then have "roundToDouble (dateNow * 1000) \<le> roundToDouble (expiryTime s)"
    by (rule roundToDouble_mono)
  then have "\<not> roundToDouble (expiryTime s) < roundToDouble (dateNow * 1000)" by simp
  with assms(1) show ?thesis by (simp add: planSelectionOutcome_def)
qed

theorem planSelectionOutcome_dispatch_witness:
  "productID \<lparr>productID = ''paid'', expiryTime = 1900000000000000, paymentProvider = ''playstore''\<rparr>
     \<noteq> ''free''
   \<and> \<not> expiryTime \<lparr>productID = ''paid'', expiryTime = 1900000000000000, paymentProvider = ''playstore''\<rparr>
       < 1700000000000 * 1000
   \<and> planSelectionOutcome 1700000000000
       (Some \<lparr>productID = ''paid'', expiryTime = 1900000000000000, paymentProvider = ''playstore''\<rparr>)
     = CancelOnMobile"
  using planSelectionOutcome_dispatch
    [of "\<lparr>productID = ''paid'', expiryTime = 1900000000000000, paymentProvider = ''playstore''\<rparr>"
        1700000000000]
  by simp

text \<open>
  C9: the expiry test is a strict \<open><\<close>. A subscription whose \<open>expiryTime\<close> equals the
  current time in microseconds is not expired: when it is not on the free plan the provider
  decides, so with \<open>"stripe"\<close> the outcome is \<open>updateSubscriptionToPlan\<close> and not \<open>buyPlan\<close>.
\<close>

theorem planSelectionOutcome_expiry_strict:
  assumes "expiryTime s = dateNow * 1000" and "productID s \<noteq> ''free''"
  shows "planSelectionOutcome dateNow (Some s) \<noteq> BuyPlan
         \<and> (paymentProvider s = ''stripe''
              \<longrightarrow> planSelectionOutcome dateNow (Some s) = UpdateSubscriptionToPlan)"
  using assms by (simp add: planSelectionOutcome_def)

theorem planSelectionOutcome_expiry_strict_witness:
  "expiryTime \<lparr>productID = ''paid'', expiryTime = 1700000000000000, paymentProvider = ''stripe''\<rparr>
     = 1700000000000 * 1000
   \<and> productID \<lparr>productID = ''paid'', expiryTime = 1700000000000000, paymentProvider = ''stripe''\<rparr>
     \<noteq> ''free''
   \<and> paymentProvider \<lparr>productID = ''paid'', expiryTime = 1700000000000000, paymentProvider = ''stripe''\<rparr>
     = ''stripe''
   \<and> planSelectionOutcome 1700000000000
       (Some \<lparr>productID = ''paid'', expiryTime = 1700000000000000, paymentProvider = ''stripe''\<rparr>)
     = UpdateSubscriptionToPlan"
  using planSelectionOutcome_expiry_strict
    [of "\<lparr>productID = ''paid'', expiryTime = 1700000000000000, paymentProvider = ''stripe''\<rparr>"
        1700000000000]
  by simp

section \<open>Properties of the mailing list controller\<close>

text \<open>
  With a refresh token configured the operations do reach \<open>zoho.DoRequest\<close>: exactly one
  request is made. The properties of the disabled mode below are stated against this.
\<close>

lemma enabled_mode_issues_request:
  assumes "RefreshToken (zohoCredentials c) \<noteq> ''''"
  shows "filter isRequest (effects (Subscribe DoRequest email c))
           = [Request ''POST'' (actionURL c ''listsubscribe'' email)
                (zohoAccessToken c) (zohoCredentials c)]"
    and "filter isRequest (effects (Unsubscribe DoRequest email c))
           = [Request ''POST'' (actionURL c ''listunsubscribe'' email)
                (zohoAccessToken c) (zohoCredentials c)]"
  using assms
  by (simp_all add: Subscribe_def Unsubscribe_def shouldSkip_def doListAction_def Let_def
               split: prod.splits option.splits)

text \<open>
  C3: in disabled mode (the configured refresh token is empty) \<open>Subscribe\<close> and
  \<open>Unsubscribe\<close> return, for every email, the error \<open>ErrNotImplemented\<close> wrapped by
  \<open>stacktrace.Propagate\<close>, and make no request: the only effect of either call is the
  informational log line of \<open>shouldSkip\<close>; \<open>doListAction\<close> is not reached.
\<close>

theorem disabled_mode_fails_without_request:
  assumes "RefreshToken (zohoCredentials c) = ''''"
  shows "returned (Subscribe DoRequest email c) = Some (Stacktrace ErrNotImplemented '''')
       \<and> returned (Unsubscribe DoRequest email c) = Some (Stacktrace ErrNotImplemented '''')
       \<and> filter isRequest (effects (Subscribe DoRequest email c)) = []
       \<and> filter isRequest (effects (Unsubscribe DoRequest email c)) = []
       \<and> effects (Subscribe DoRequest email c)
           = [Log InfoLevel ''Skipping mailing list update because credentials are not configured'']
       \<and> effects (Unsubscribe DoRequest email c)
           = [Log InfoLevel ''Skipping mailing list update because credentials are not configured'']"
  using assms by (simp add: Subscribe_def Unsubscribe_def shouldSkip_def Propagate_def)

theorem disabled_mode_fails_without_request_witness:
  "RefreshToken (zohoCredentials disabledController) = ''''
   \<and> returned (Subscribe contactMissing ''a@b.com'' disabledController)
       = Some (Stacktrace ErrNotImplemented '''')
   \<and> returned (Unsubscribe contactMissing ''a@b.com'' disabledController)
       = Some (Stacktrace ErrNotImplemented '''')
   \<and> filter isRequest (effects (Subscribe contactMissing ''a@b.com'' disabledController)) = []
   \<and> filter isRequest (effects (Unsubscribe contactMissing ''a@b.com'' disabledController)) = []"
  using disabled_mode_fails_without_request
    [where c = disabledController and DoRequest = contactMissing and email = "''a@b.com''"]
  by simp

text \<open>
  C10: in disabled mode \<open>Subscribe\<close> and \<open>Unsubscribe\<close> leave the controller as it was;
  in particular the cached access token is unchanged.
\<close>

theorem disabled_mode_keeps_controller:
  assumes "RefreshToken (zohoCredentials c) = ''''"
  shows "receiver (Subscribe DoRequest email c) = c
       \<and> receiver (Unsubscribe DoRequest email c) = c
       \<and> zohoAccessToken (receiver (Subscribe DoRequest email c)) = zohoAccessToken c
       \<and> zohoAccessToken (receiver (Unsubscribe DoRequest email c)) = zohoAccessToken c"
  using assms by (simp add: Subscribe_def Unsubscribe_def shouldSkip_def)

theorem disabled_mode_keeps_controller_witness:
  "RefreshToken (zohoCredentials disabledController) = ''''
   \<and> receiver (Subscribe contactMissing ''a@b.com'' disabledController) = disabledController
   \<and> receiver (Unsubscribe contactMissing ''a@b.com'' disabledController) = disabledController
   \<and> zohoAccessToken (receiver (Subscribe contactMissing ''a@b.com'' disabledController))
       = ''cached''
   \<and> zohoAccessToken (receiver (Unsubscribe contactMissing ''a@b.com'' disabledController))
       = ''cached''"
  using disabled_mode_keeps_controller
    [where c = disabledController and DoRequest = contactMissing and email = "''a@b.com''"]
  by simp

text \<open>
  C5: after \<open>doListAction\<close> the cached access token of the controller is the token that
  \<open>zoho.DoRequest\<close> returned, whether the request succeeded (\<open>err\<close> is \<open>None\<close>) or failed;
  nothing else of the controller changes.
\<close>

theorem doListAction_caches_returned_token:
  assumes "DoRequest ''POST'' (actionURL c action email) (zohoAccessToken c) (zohoCredentials c)
             = (token, err)"
  shows "zohoAccessToken (receiver (doListAction DoRequest action email c)) = token
       \<and> receiver (doListAction DoRequest action email c) = c\<lparr>zohoAccessToken := token\<rparr>"
  using assms by (simp add: doListAction_def Let_def)

theorem doListAction_caches_returned_token_witness:
  "contactMissing ''POST'' (actionURL enabledController ''listunsubscribe'' ''a@b.com'')
       (zohoAccessToken enabledController) (zohoCredentials enabledController)
     = (''fresh'', Some ''Contact does not exist.'')
   \<and> returned (doListAction contactMissing ''listunsubscribe'' ''a@b.com'' enabledController)
       \<noteq> None
   \<and> zohoAccessToken
         (receiver (doListAction contactMissing ''listunsubscribe'' ''a@b.com'' enabledController))
       = ''fresh''"
  using doListAction_caches_returned_token
    [where DoRequest = contactMissing and c = enabledController
       and action = "''listunsubscribe''" and email = "''a@b.com''"
       and token = "''fresh''" and err = "Some ''Contact does not exist.''"]
  by (simp add: doListAction_def Propagate_def)

text \<open>
  Three runs of \<open>doListAction\<close> on the same controller: the vendor reports that the contact
  does not exist (one warning, an error returned), the request fails otherwise (one error
  line, an error returned), the request succeeds (no log line, \<open>nil\<close> returned).
\<close>

lemma doListAction_runs:
  "returned (doListAction contactMissing ''listunsubscribe'' ''a@b.com'' enabledController)
     = Some (Stacktrace (RequestError ''Contact does not exist.'') '''')"
  "map (\<lambda>e. case e of Log lvl line \<Rightarrow> Some lvl | Request m u t k \<Rightarrow> None)
     (effects (doListAction contactMissing ''listunsubscribe'' ''a@b.com'' enabledController))
     = [None, Some WarnLevel]"
  "returned (doListAction (\<lambda>m u t k. (''fresh'', Some ''Internal error''))
              ''listunsubscribe'' ''a@b.com'' enabledController)
     = Some (Stacktrace (RequestError ''Internal error'') '''')"
  "map (\<lambda>e. case e of Log lvl line \<Rightarrow> Some lvl | Request m u t k \<Rightarrow> None)
     (effects (doListAction (\<lambda>m u t k. (''fresh'', Some ''Internal error''))
                ''listunsubscribe'' ''a@b.com'' enabledController))
     = [None, Some ErrorLevel]"
  "returned (doListAction (\<lambda>m u t k. (''fresh'', None))
              ''listsubscribe'' ''a@b.com'' enabledController) = None"
  "map (\<lambda>e. case e of Log lvl line \<Rightarrow> Some lvl | Request m u t k \<Rightarrow> None)
     (effects (doListAction (\<lambda>m u t k. (''fresh'', None))
                ''listsubscribe'' ''a@b.com'' enabledController))
     = [None]"
  by (simp_all add: doListAction_def Propagate_def)

text \<open>
  C4: when the request fails, the error text decides the severity of the one log line
  only: warning if it contains "Contact does not exist", error otherwise. The error
  returned is in both cases the request's error passed through \<open>stacktrace.Propagate\<close>, and
  \<open>doListAction\<close> returns an error exactly when the request returned one; a successful
  request logs nothing. Here \<open>token\<close> and \<open>err\<close> are what \<open>zoho.DoRequest\<close> returns.
\<close>

theorem doListAction_error_only_logged:
  assumes "DoRequest ''POST'' (actionURL c action email) (zohoAccessToken c) (zohoCredentials c)
             = (token, err)"
  shows "returned (doListAction DoRequest action email c)
           = Propagate (map_option RequestError err) ''''
       \<and> (returned (doListAction DoRequest action email c) = None) = (err = None)
       \<and> effects (doListAction DoRequest action email c)
           = Request ''POST'' (actionURL c action email) (zohoAccessToken c) (zohoCredentials c)
             # (case err of
                  None \<Rightarrow> []
                | Some errText \<Rightarrow>
                    [Log (if Contains errText ''Contact does not exist''
                          then WarnLevel else ErrorLevel)
                       (couldNot action email errText)])"
  using assms by (cases err) (simp_all add: doListAction_def Let_def Propagate_def)

theorem doListAction_error_only_logged_witness:
  "contactMissing ''POST'' (actionURL enabledController ''listunsubscribe'' ''a@b.com'')
       (zohoAccessToken enabledController) (zohoCredentials enabledController)
     = (''fresh'', Some ''Contact does not exist.'')
   \<and> Contains ''Contact does not exist.'' ''Contact does not exist''
   \<and> returned (doListAction contactMissing ''listunsubscribe'' ''a@b.com'' enabledController)
       = Some (Stacktrace (RequestError ''Contact does not exist.'') '''')
   \<and> effects (doListAction contactMissing ''listunsubscribe'' ''a@b.com'' enabledController)
       = [Request ''POST'' (actionURL enabledController ''listunsubscribe'' ''a@b.com'')
            ''cached'' (zohoCredentials enabledController),
          Log WarnLevel
            (couldNot ''listunsubscribe'' ''a@b.com'' ''Contact does not exist.'')]"
  using doListAction_error_only_logged
    [where DoRequest = contactMissing and c = enabledController
       and action = "''listunsubscribe''" and email = "''a@b.com''"
       and token = "''fresh''" and err = "Some ''Contact does not exist.''"]
  by (simp add: Propagate_def)

text \<open>
  C2, as the code has it. The claim names the literal \<open>{Contact Email: "<escaped-email>"}\<close>
  and says that the parameter decodes to \<open>{Contact Email: "a+b@example.com"}\<close>. The source's
  literal is \<open>{Contact+Email: "%s"}\<close>, with a \<open>+\<close> between the two words, and one
  query-unescaping of the parameter leaves the email still query-escaped
  (\<open>a%2Bb%40example.com\<close>):
\<close>

theorem contactInfo_literal_counterexample:
  \<open>contactInfo ''a+b@example.com'' = ''{Contact+Email: "a%2Bb%40example.com"}''
   \<and> contactInfo ''a+b@example.com''
       \<noteq> ''{Contact Email: "'' @ QueryEscape ''a+b@example.com'' @ ''"}''
   \<and> QueryUnescape (escapedContactInfo ''a+b@example.com'')
       = Some ''{Contact Email: "a%2Bb%40example.com"}''
   \<and> QueryUnescape (escapedContactInfo ''a+b@example.com'')
       \<noteq> Some ''{Contact Email: "a+b@example.com"}''\<close>
  by (simp add: QueryUnescape_escapedContactInfo)
     (simp add: contactInfo_def QueryEscape_def shouldEscape_def upperhex_def
                less_eq_char_def plusToSpace_def)

text \<open>
  C2, amended: \<open>doListAction\<close> builds the \<open>contactinfo\<close> parameter of the request URL in
  two escaping stages. The email is query-escaped (a \<open>+\<close> becomes \<open>%2B\<close>); the escaped
  email is embedded in the literal \<open>{Contact+Email: "<escaped-email>"}\<close>; the whole literal is
  path-escaped, which leaves a \<open>+\<close> as it is and turns a \<open>%\<close> into \<open>%25\<close>. For the email
  \<open>a+b@example.com\<close> the parameter is
  \<open>%7BContact+Email:%20%22a%252Bb%2540example.com%22%7D\<close>; query-unescaping it once gives
  \<open>{Contact Email: "a%2Bb%40example.com"}\<close> and once more
  \<open>{Contact Email: "a+b@example.com"}\<close>. For every email, two query-unescapings of the
  parameter give \<open>{Contact Email: "<email>"}\<close>: a plus of the email comes out as a plus, not
  as a space.
\<close>

theorem doListAction_contactinfo_escaping:
  \<open>hd (effects (doListAction DoRequest action email c))
     = Request ''POST''
         (''https://campaigns.zoho.com/api/v1.1/json/'' @ action @ ''?resfmt=JSON&listkey=''
            @ zohoListKey c @ ''&contactinfo=''
            @ PathEscape (''{Contact+Email: "'' @ QueryEscape email @ ''"}'')
            @ ''&topic_id='' @ zohoTopicIds c)
         (zohoAccessToken c) (zohoCredentials c)
   \<and> QueryEscape (s @ ''+'' @ t) = QueryEscape s @ ''%2B'' @ QueryEscape t
   \<and> PathEscape (s @ ''+'' @ t) = PathEscape s @ ''+'' @ PathEscape t
   \<and> PathEscape (s @ ''%'' @ t) = PathEscape s @ ''%25'' @ PathEscape t
   \<and> escapedContactInfo ''a+b@example.com''
       = ''%7BContact+Email:%20%22a%252Bb%2540example.com%22%7D''
   \<and> QueryUnescape (escapedContactInfo ''a+b@example.com'')
       = Some ''{Contact Email: "a%2Bb%40example.com"}''
   \<and> Option.bind (QueryUnescape (escapedContactInfo ''a+b@example.com'')) QueryUnescape
       = Some ''{Contact Email: "a+b@example.com"}''
   \<and> Option.bind (QueryUnescape (escapedContactInfo email)) QueryUnescape
       = Some (''{Contact Email: "'' @ email @ ''"}'')\<close>
proof -
  have url: \<open>hd (effects (doListAction DoRequest action email c))
     = Request ''POST''
         (''https://campaigns.zoho.com/api/v1.1/json/'' @ action @ ''?resfmt=JSON&listkey=''
            @ zohoListKey c @ ''&contactinfo=''
            @ PathEscape (''{Contact+Email: "'' @ QueryEscape email @ ''"}'')
            @ ''&topic_id='' @ zohoTopicIds c)
         (zohoAccessToken c) (zohoCredentials c)\<close>
    by (simp add: doListAction_def Let_def actionURL_def escapedContactInfo_def contactInfo_def
             split: prod.splits)
  have plus_query: "QueryEscape (s @ ''+'' @ t) = QueryEscape s @ ''%2B'' @ QueryEscape t"
    by (simp add: QueryEscape_def escape_append shouldEscape_def upperhex_def less_eq_char_def)
  have plus_kept: "PathEscape (s @ ''+'' @ t) = PathEscape s @ ''+'' @ PathEscape t"
    by (simp add: PathEscape_def escape_append shouldEscape_def less_eq_char_def)
  have percent_path: "PathEscape (s @ ''%'' @ t) = PathEscape s @ ''%25'' @ PathEscape t"
    by (simp add: PathEscape_def escape_append shouldEscape_def upperhex_def less_eq_char_def)
  have param: \<open>escapedContactInfo ''a+b@example.com''
       = ''%7BContact+Email:%20%22a%252Bb%2540example.com%22%7D''\<close>
    by (simp add: escapedContactInfo_def contactInfo_def PathEscape_def QueryEscape_def
                  shouldEscape_def upperhex_def less_eq_char_def)
  have once: \<open>QueryUnescape (escapedContactInfo ''a+b@example.com'')
       = Some ''{Contact Email: "a%2Bb%40example.com"}''\<close>
    by (simp add: QueryUnescape_escapedContactInfo)
       (simp add: QueryEscape_def shouldEscape_def upperhex_def less_eq_char_def plusToSpace_def)
  have twice: \<open>Option.bind (QueryUnescape (escapedContactInfo e)) QueryUnescape
       = Some (''{Contact Email: "'' @ e @ ''"}'')\<close> for e
    by (rule QueryUnescape_twice_escapedContactInfo)
  show ?thesis
    using url plus_query plus_kept percent_path param once twice [of email]
      twice [of "''a+b@example.com''"]
    by simp
qed

end
